theory Spec2Isabelle
  imports Complex_Main "HOL-Library.Multiset"
begin

section \<open>Python values used by the session restorer\<close>

text \<open>
  A naive \<^verbatim>\<open>datetime\<close> is the number of microseconds since \<^verbatim>\<open>datetime.min\<close>
  (0001-01-01 00:00:00); naive datetimes compare by that number, and \<^verbatim>\<open>datetime.min\<close>
  is the least of them. \<^verbatim>\<open>datetime.fromtimestamp\<close> raises for a timestamp that would give
  \<^verbatim>\<open>datetime.min\<close> itself, so the time of a file is later.

  A \<^verbatim>\<open>str\<close> is a list of characters, and a character is a Unicode code point below
  256: \<open>CHR 0xE9\<close> is U+00E9. On these strings \<open>lower\<close> and \<open>strip\<close> are
  \<^verbatim>\<open>str.lower\<close> and \<^verbatim>\<open>str.strip\<close> of the interpreter.
\<close>

type_synonym datetime = nat

definition datetime_min :: datetime where
  "datetime_min = 0"

datatype error =
    ValueError string
  | OverflowError
  | TypeError
  | OSError

datatype pyfloat = PyFinite rat | PyNan | PyInf

datatype json =
    JNull
  | JBool bool
  | JInt int
  | JFloat pyfloat
  | JStr string
  | JArr "json list"
  | JObj "(string \<times> json) list"

text \<open>\<^verbatim>\<open>obj.get(k)\<close> on a parsed JSON object, which is the list of its items (the
  keys of a \<^verbatim>\<open>dict\<close> are distinct).\<close>

definition dict_get :: "(string \<times> json) list \<Rightarrow> string \<Rightarrow> json option" where
  "dict_get obj k = map_of obj k"

text \<open>\<^verbatim>\<open>c.isspace()\<close>: the white space among the code points below 256.\<close>

definition is_space :: "char \<Rightarrow> bool" where
  "is_space c = (c \<in> set [CHR 0x09, CHR 0x0A, CHR 0x0B, CHR 0x0C, CHR 0x0D,
                            CHR 0x1C, CHR 0x1D, CHR 0x1E, CHR 0x1F, CHR 0x20,
                            CHR 0x85, CHR 0xA0])"

definition strip :: "string \<Rightarrow> string" where
  "strip s = rev (dropWhile is_space (rev (dropWhile is_space s)))"

text \<open>
  The letters \<^verbatim>\<open>str.lower\<close> changes among the code points below 256, each with its
  lower-case form: A to Z, and the Latin-1 capitals U+00C0 to U+00DE without the
  multiplication sign U+00D7. Every other character is left as it is.
\<close>

definition case_pairs :: "(char \<times> char) list" where
  "case_pairs =
     zip (''ABCDEFGHIJKLMNOPQRSTUVWXYZ''
          @ [CHR 0xC0, CHR 0xC1, CHR 0xC2, CHR 0xC3, CHR 0xC4, CHR 0xC5, CHR 0xC6, CHR 0xC7,
             CHR 0xC8, CHR 0xC9, CHR 0xCA, CHR 0xCB, CHR 0xCC, CHR 0xCD, CHR 0xCE, CHR 0xCF,
             CHR 0xD0, CHR 0xD1, CHR 0xD2, CHR 0xD3, CHR 0xD4, CHR 0xD5, CHR 0xD6,
             CHR 0xD8, CHR 0xD9, CHR 0xDA, CHR 0xDB, CHR 0xDC, CHR 0xDD, CHR 0xDE])
         (''abcdefghijklmnopqrstuvwxyz''
          @ [CHR 0xE0, CHR 0xE1, CHR 0xE2, CHR 0xE3, CHR 0xE4, CHR 0xE5, CHR 0xE6, CHR 0xE7,
             CHR 0xE8, CHR 0xE9, CHR 0xEA, CHR 0xEB, CHR 0xEC, CHR 0xED, CHR 0xEE, CHR 0xEF,
             CHR 0xF0, CHR 0xF1, CHR 0xF2, CHR 0xF3, CHR 0xF4, CHR 0xF5, CHR 0xF6,
             CHR 0xF8, CHR 0xF9, CHR 0xFA, CHR 0xFB, CHR 0xFC, CHR 0xFD, CHR 0xFE])"

definition lower_char :: "char \<Rightarrow> char" where
  "lower_char c = (case map_of case_pairs c of Some l \<Rightarrow> l | None \<Rightarrow> c)"

definition lower :: "string \<Rightarrow> string" where
  "lower s = map lower_char s"

text \<open>\<^verbatim>\<open>s.replace(a, b)\<close> for single characters.\<close>

definition replace_char :: "char \<Rightarrow> char \<Rightarrow> string \<Rightarrow> string" where
  "replace_char a b s = map (\<lambda>c. if c = a then b else c) s"

text \<open>\<^verbatim>\<open>needle in text\<close>: substring test.\<close>

fun is_prefix :: "string \<Rightarrow> string \<Rightarrow> bool" where
  "is_prefix [] ys = True"
| "is_prefix (x # xs) [] = False"
| "is_prefix (x # xs) (y # ys) = (x = y \<and> is_prefix xs ys)"

fun str_contains :: "string \<Rightarrow> string \<Rightarrow> bool" where
  "str_contains n [] = (n = [])"
| "str_contains n (y # ys) = (is_prefix n (y # ys) \<or> str_contains n ys)"

text \<open>\<^verbatim>\<open>xs.sort(key=f, reverse=True)\<close>: CPython reverses the list, sorts it with
  its stable ascending sort, and reverses the result.\<close>

definition sort_reverse :: "('a \<Rightarrow> 'k::linorder) \<Rightarrow> 'a list \<Rightarrow> 'a list" where
  "sort_reverse f xs = rev (sort_key f (rev xs))"

text \<open>\<^verbatim>\<open>int(x)\<close> for the values that pass \<^verbatim>\<open>isinstance(x, (int, float))\<close>;
  \<^verbatim>\<open>bool\<close> is a subclass of \<^verbatim>\<open>int\<close>.\<close>

fun is_number :: "json \<Rightarrow> bool" where
  "is_number (JBool b) = True"
| "is_number (JInt n) = True"
| "is_number (JFloat x) = True"
| "is_number JNull = False"
| "is_number (JStr s) = False"
| "is_number (JArr xs) = False"
| "is_number (JObj kvs) = False"

definition trunc :: "rat \<Rightarrow> int" where
  "trunc q = (if 0 \<le> q then \<lfloor>q\<rfloor> else \<lceil>q\<rceil>)"

fun py_int :: "json \<Rightarrow> error + int" where
  "py_int (JBool b) = Inr (if b then 1 else 0)"
| "py_int (JInt n) = Inr n"
| "py_int (JFloat (PyFinite q)) = Inr (trunc q)"
| "py_int (JFloat PyNan) = Inl (ValueError ''cannot convert float NaN to integer'')"
| "py_int (JFloat PyInf) = Inl OverflowError"
| "py_int JNull = Inl TypeError"
| "py_int (JStr s) = Inl TypeError"
| "py_int (JArr xs) = Inl TypeError"
| "py_int (JObj kvs) = Inl TypeError"

section \<open>Paths (pathlib, POSIX flavour)\<close>

datatype path = Path (p_root: string) (p_names: "string list")

fun split_on :: "char \<Rightarrow> string \<Rightarrow> string list" where
  "split_on c [] = [[]]"
| "split_on c (x # xs) =
     (if x = c then [] # split_on c xs
      else (case split_on c xs of [] \<Rightarrow> [[x]] | w # ws \<Rightarrow> (x # w) # ws))"

definition split_root :: "string \<Rightarrow> string" where
  "split_root s =
     (let k = length (takeWhile (\<lambda>c. c = CHR ''/'') s)
      in if k = 0 then [] else if k = 2 then ''//'' else ''/'')"

definition parse_path :: "string \<Rightarrow> path" where
  "parse_path s =
     Path (split_root s) (filter (\<lambda>w. w \<noteq> [] \<and> w \<noteq> ''.'') (split_on (CHR ''/'') s))"

fun join_with :: "string \<Rightarrow> string list \<Rightarrow> string" where
  "join_with sep [] = []"
| "join_with sep [w] = w"
| "join_with sep (w # v # ws) = w @ sep @ join_with sep (v # ws)"

definition path_str :: "path \<Rightarrow> string" where
  "path_str p =
     (let s = p_root p @ join_with ''/'' (p_names p) in if s = [] then ''.'' else s)"

definition is_absolute :: "path \<Rightarrow> bool" where
  "is_absolute p = (p_root p \<noteq> [])"

definition joinpath :: "path \<Rightarrow> path \<Rightarrow> path" where
  "joinpath a b = (if is_absolute b then b else Path (p_root a) (p_names a @ p_names b))"

definition parent :: "path \<Rightarrow> path" where
  "parent p = Path (p_root p) (butlast (p_names p))"

definition path_name :: "path \<Rightarrow> string" where
  "path_name p = (if p_names p = [] then [] else last (p_names p))"

text \<open>\<^verbatim>\<open>name.rfind('.')\<close>, and the suffix and the stem pathlib derives from it.\<close>

definition rfind :: "char \<Rightarrow> string \<Rightarrow> int" where
  "rfind c s =
     (if c \<in> set s then int (length s) - 1 - int (length (takeWhile (\<lambda>x. x \<noteq> c) (rev s)))
      else - 1)"

definition suffix_of :: "string \<Rightarrow> string" where
  "suffix_of name =
     (let i = rfind (CHR ''.'') name
      in if 0 < i \<and> i < int (length name) - 1 then drop (nat i) name else [])"

definition stem_of :: "string \<Rightarrow> string" where
  "stem_of name =
     (let i = rfind (CHR ''.'') name
      in if 0 < i \<and> i < int (length name) - 1 then take (nat i) name else name)"

text \<open>
  \<^verbatim>\<open>Path.resolve()\<close> on a file system without symbolic links: the path is made
  absolute against the working directory and \<^verbatim>\<open>..\<close> is removed lexically.
  \<^verbatim>\<open>os.path.realpath\<close> calls \<^verbatim>\<open>lstat\<close> on every component, which raises
  \<^verbatim>\<open>ValueError\<close> on an embedded null byte.
\<close>

fun collapse :: "string list \<Rightarrow> string list \<Rightarrow> string list" where
  "collapse acc [] = rev acc"
| "collapse acc (w # ws) =
     (if w = ''..'' then collapse (tl acc) ws else collapse (w # acc) ws)"

definition resolve :: "path \<Rightarrow> path \<Rightarrow> error + path" where
  "resolve cwd p =
     (let q = (if is_absolute p then p else joinpath cwd p)
      in if list_ex (\<lambda>w. CHR 0x00 \<in> set w) (p_names q)
         then Inl (ValueError ''embedded null byte'')
         else Inr (Path ''/'' (collapse [] (p_names q))))"

text \<open>\<^verbatim>\<open>Path.as_uri()\<close>: \<^verbatim>\<open>file://\<close> and the percent-quoted path; a relative path
  raises \<^verbatim>\<open>ValueError\<close>.\<close>

definition hex_digit :: "nat \<Rightarrow> char" where
  "hex_digit n = ''0123456789ABCDEF'' ! n"

definition percent :: "nat \<Rightarrow> string" where
  "percent b = [CHR ''%'', hex_digit (b div 16), hex_digit (b mod 16)]"

text \<open>The bytes of a character in UTF-8: one byte below U+0080, two bytes from there.\<close>

definition utf8 :: "char \<Rightarrow> nat list" where
  "utf8 c =
     (let n = (of_char c :: nat)
      in if n < 128 then [n] else [192 + n div 64, 128 + n mod 64])"

definition quote_char :: "char \<Rightarrow> string" where
  "quote_char c =
     (if c \<in> set ''ABCDEFGHIJKLMNOPQRSTUVWXYZabcdefghijklmnopqrstuvwxyz0123456789_.-~/''
      then [c]
      else concat (map percent (utf8 c)))"

definition quote :: "string \<Rightarrow> string" where
  "quote s = concat (map quote_char s)"

definition as_uri :: "path \<Rightarrow> error + string" where
  "as_uri p =
     (if is_absolute p then Inr (''file://'' @ quote (path_str p))
      else Inl (ValueError (''relative path can'' @ [CHR 0x27] @ ''t be expressed as a file URI'')))"

section \<open>Session artifacts\<close>

text \<open>
  The program reads the file system; the model takes what it reads as data: the listing
  of the storage root, and for every entry what \<^verbatim>\<open>is_dir\<close>, \<^verbatim>\<open>exists\<close>, \<^verbatim>\<open>stat\<close>,
  \<^verbatim>\<open>iterdir\<close> and \<^verbatim>\<open>read_text\<close> return or raise there.
\<close>

record HashInfo =
  hash :: string
  path :: path
  workspace_json :: path
  state_db :: path
  state_db_mtime :: "datetime option"
  chat_dir :: path
  chat_files :: nat

record SessionItem =
  hash :: string
  session_id :: string
  title :: string
  created :: datetime
  updated :: datetime
  ext :: string
  path :: path

text \<open>
  A file of a \<^verbatim>\<open>chatSessions\<close> folder as the program reads it: its name, whether it is
  a regular file, the two \<^verbatim>\<open>stat\<close> times as \<^verbatim>\<open>dt_from_ts\<close> returns them, and what
  \<^verbatim>\<open>json.loads(path.read_text(encoding="utf-8"))\<close> gives (\<open>None\<close> when it raises).
\<close>

record chat_entry =
  e_name :: string
  e_is_file :: bool
  e_ctime :: datetime
  e_mtime :: datetime
  e_json :: "json option"

text \<open>The folder itself: absent (or not a directory), present but \<^verbatim>\<open>iterdir\<close> raises,
  or listed in iteration order.\<close>

datatype chat_listing = NoChatDir | ChatDirError | ChatDir "chat_entry list"

text \<open>The descriptor \<^verbatim>\<open>workspace.json\<close> of a hash directory: the text
  \<^verbatim>\<open>read_text_best_effort\<close> returns, or the error its second, unguarded
  \<^verbatim>\<open>read_text\<close> raises; and the file's own modification time.\<close>

record text_file =
  read_result :: "error + string"
  mtime :: datetime

text \<open>An entry of the \<^verbatim>\<open>workspaceStorage\<close> root. \<open>d_state_db\<close> is \<open>None\<close> when
  \<^verbatim>\<open>state.vscdb\<close> does not exist; otherwise it is what
  \<^verbatim>\<open>dt_from_ts(state_db.stat().st_mtime)\<close> gives: the modification time, or the error
  that \<^verbatim>\<open>stat\<close> or \<^verbatim>\<open>datetime.fromtimestamp\<close> raises.\<close>

record hash_dir =
  d_name :: string
  d_is_dir :: bool
  d_workspace_json :: "text_file option"
  d_state_db :: "(error + datetime) option"
  d_chat :: chat_listing

text \<open>The root: its path and its entries in \<^verbatim>\<open>iterdir\<close> order, \<open>None\<close> when the root
  cannot be listed.\<close>

record workspace_storage =
  ws_path :: path
  ws_entries :: "hash_dir list option"

text \<open>\<^verbatim>\<open>datetime.fromtimestamp(ms / 1000)\<close> of the platform, \<open>None\<close> when it raises
  (a value outside the supported range).\<close>

type_synonym clock = "int \<Rightarrow> datetime option"

fun title_loop :: "(string \<times> json) list \<Rightarrow> string list \<Rightarrow> string" where
  "title_loop obj [] = []"
| "title_loop obj (k # ks) =
     (case dict_get obj k of
        Some (JStr v) \<Rightarrow> if strip v \<noteq> [] then strip v else title_loop obj ks
      | _ \<Rightarrow> title_loop obj ks)"

definition try_parse_session_meta_json ::
    "json option \<Rightarrow> string option \<times> string \<times> int option" where
  "try_parse_session_meta_json parsed =
     (case parsed of
        Some (JObj obj) \<Rightarrow>
          (let session_id =
                 (case dict_get obj ''sessionId'' of
                    Some (JStr s) \<Rightarrow> if s \<noteq> [] then Some s else None
                  | _ \<Rightarrow> None);
               title = title_loop obj [''customTitle'', ''title'', ''computedTitle'']
           in case dict_get obj ''creationDate'' of
                None \<Rightarrow> (session_id, title, None)
              | Some cd \<Rightarrow>
                  if is_number cd then
                    (case py_int cd of
                       Inl e \<Rightarrow> (None, [], None)
                     | Inr cdi \<Rightarrow>
                         (session_id, title,
                          Some (if cdi < 10000000000 then cdi * 1000 else cdi)))
                  else (session_id, title, None))
      | _ \<Rightarrow> (None, [], None))"

text \<open>\<^verbatim>\<open>workspace_storage / h / "chatSessions"\<close> and what is found there, for a
  hash identifier \<open>h\<close> that is the name of an entry of the root.\<close>

definition chat_dir_path :: "workspace_storage \<Rightarrow> string \<Rightarrow> path" where
  "chat_dir_path st h =
     joinpath (joinpath (ws_path st) (parse_path h)) (parse_path ''chatSessions'')"

definition lookup_chat :: "workspace_storage \<Rightarrow> string \<Rightarrow> chat_listing" where
  "lookup_chat st h =
     (case ws_entries st of
        None \<Rightarrow> NoChatDir
      | Some ds \<Rightarrow>
          (case find (\<lambda>d. d_name d = h) ds of
             None \<Rightarrow> NoChatDir
           | Some d \<Rightarrow> if d_is_dir d then d_chat d else NoChatDir))"

text \<open>The body of the loop over the files of one session folder; \<open>None\<close> is
  \<^verbatim>\<open>continue\<close>.\<close>

definition entry_ext :: "chat_entry \<Rightarrow> string" where
  "entry_ext e = dropWhile (\<lambda>c. c = CHR ''.'') (lower (suffix_of (e_name e)))"

definition inventory_entry :: "clock \<Rightarrow> path \<Rightarrow> string \<Rightarrow> chat_entry \<Rightarrow> SessionItem option" where
  "inventory_entry fromtimestamp folder h e =
     (if \<not> e_is_file e then None
      else if entry_ext e \<noteq> ''json'' \<and> entry_ext e \<noteq> ''jsonl'' then None
      else
        (let meta = (if entry_ext e = ''json''
                     then try_parse_session_meta_json (e_json e)
                     else (None, [], None));
             sid2 = fst meta; title2 = fst (snd meta); creation_ms = snd (snd meta)
         in Some \<lparr>
              hash = h,
              session_id = (case sid2 of Some s \<Rightarrow> s | None \<Rightarrow> stem_of (e_name e)),
              title = title2,
              created =
                (case creation_ms of
                   None \<Rightarrow> e_ctime e
                 | Some ms \<Rightarrow>
                     if ms = 0 then e_ctime e
                     else (case fromtimestamp ms of Some d \<Rightarrow> d | None \<Rightarrow> e_ctime e)),
              updated = e_mtime e,
              ext = entry_ext e,
              path = joinpath folder (parse_path (e_name e)) \<rparr>))"

fun inventory_hashes ::
    "clock \<Rightarrow> workspace_storage \<Rightarrow> string list \<Rightarrow> error + SessionItem list" where
  "inventory_hashes fromtimestamp st [] = Inr []"
| "inventory_hashes fromtimestamp st (h # hs) =
     (case lookup_chat st h of
        NoChatDir \<Rightarrow> inventory_hashes fromtimestamp st hs
      | ChatDirError \<Rightarrow> Inl OSError
      | ChatDir es \<Rightarrow>
          (case inventory_hashes fromtimestamp st hs of
             Inl err \<Rightarrow> Inl err
           | Inr items \<Rightarrow>
               Inr (List.map_filter (inventory_entry fromtimestamp (chat_dir_path st h) h) es
                    @ items)))"

definition session_inventory ::
    "clock \<Rightarrow> workspace_storage \<Rightarrow> string list \<Rightarrow> error + SessionItem list" where
  "session_inventory fromtimestamp st hashes =
     (case inventory_hashes fromtimestamp st hashes of
        Inl err \<Rightarrow> Inl err
      | Inr items \<Rightarrow> Inr (sort_reverse updated items))"

section \<open>Reconciliation\<close>

definition status_for :: "SessionItem \<Rightarrow> (string \<rightharpoonup> datetime) \<Rightarrow> string" where
  "status_for item target_map =
     (case target_map (session_id item) of
        None \<Rightarrow> ''MissingInTarget''
      | Some t \<Rightarrow> if updated item > t then ''NewerInSource'' else ''AlreadyInTarget'')"

section \<open>Hash discovery and ranking\<close>

definition needle_matches :: "string list \<Rightarrow> string \<Rightarrow> bool" where
  "needle_matches needles2 text =
     (let content_low = lower text
      in list_ex (\<lambda>n. str_contains (lower n) content_low) needles2)"

text \<open>The number of regular files directly in the session folder; zero when the folder
  is absent and when listing it raises.\<close>

fun count_chat_files :: "chat_listing \<Rightarrow> nat" where
  "count_chat_files NoChatDir = 0"
| "count_chat_files ChatDirError = 0"
| "count_chat_files (ChatDir es) = length (filter e_is_file es)"

definition db_mtime :: "hash_dir \<Rightarrow> datetime option" where
  "db_mtime d = (case d_state_db d of Some (Inr t) \<Rightarrow> Some t | _ \<Rightarrow> None)"

definition hash_info :: "path \<Rightarrow> hash_dir \<Rightarrow> HashInfo" where
  "hash_info storage_root d =
     (let dpath = joinpath storage_root (parse_path (d_name d))
      in \<lparr> HashInfo.hash = d_name d,
           HashInfo.path = dpath,
           workspace_json = joinpath dpath (parse_path ''workspace.json''),
           state_db = joinpath dpath (parse_path ''state.vscdb''),
           state_db_mtime = db_mtime d,
           chat_dir = joinpath dpath (parse_path ''chatSessions''),
           chat_files = count_chat_files (d_chat d) \<rparr>)"

text \<open>The body of the scan loop: \<open>Inl\<close> is an exception that leaves the loop (reading
  the descriptor, or reading the time of the database of a matched directory),
  \<open>Inr None\<close> is \<^verbatim>\<open>continue\<close>, \<open>Inr (Some h)\<close> appends \<open>h\<close> to the hits.\<close>

definition scan_dir :: "path \<Rightarrow> string list \<Rightarrow> hash_dir \<Rightarrow> error + HashInfo option" where
  "scan_dir storage_root needles2 d =
     (if \<not> d_is_dir d then Inr None
      else case d_workspace_json d of
             None \<Rightarrow> Inr None
           | Some f \<Rightarrow>
               (case read_result f of
                  Inl err \<Rightarrow> Inl err
                | Inr text \<Rightarrow>
                    if \<not> needle_matches needles2 text then Inr None
                    else (case d_state_db d of
                            Some (Inl err) \<Rightarrow> Inl err
                          | _ \<Rightarrow> Inr (Some (hash_info storage_root d)))))"

fun scan_loop :: "path \<Rightarrow> string list \<Rightarrow> hash_dir list \<Rightarrow> error + HashInfo list" where
  "scan_loop storage_root needles2 [] = Inr []"
| "scan_loop storage_root needles2 (d # ds) =
     (case scan_dir storage_root needles2 d of
        Inl err \<Rightarrow> Inl err
      | Inr found \<Rightarrow>
          (case scan_loop storage_root needles2 ds of
             Inl err \<Rightarrow> Inl err
           | Inr hits \<Rightarrow> Inr ((case found of None \<Rightarrow> [] | Some h \<Rightarrow> [h]) @ hits)))"

text \<open>The sort key \<^verbatim>\<open>x.state_db_mtime or datetime.min\<close>; a datetime is never falsy.\<close>

definition mtime_key :: "HashInfo \<Rightarrow> datetime" where
  "mtime_key x = (case state_db_mtime x of None \<Rightarrow> datetime_min | Some t \<Rightarrow> t)"

text \<open>\<^verbatim>\<open>[n for n in needles if n and n.strip()]\<close>\<close>

definition non_blank :: "string list \<Rightarrow> string list" where
  "non_blank needles = filter (\<lambda>n. n \<noteq> [] \<and> strip n \<noteq> []) needles"

text \<open>The list \<^verbatim>\<open>hits\<close> when the scan loop ends, in iteration order: what the bodies
  append.\<close>

definition scan_hits :: "path \<Rightarrow> string list \<Rightarrow> hash_dir list \<Rightarrow> HashInfo list" where
  "scan_hits storage_root needles2 ds =
     List.map_filter
       (\<lambda>d. case scan_dir storage_root needles2 d of Inr (Some h) \<Rightarrow> Some h | _ \<Rightarrow> None) ds"

definition find_hashes_by_needles ::
    "workspace_storage \<Rightarrow> string list \<Rightarrow> error + HashInfo list" where
  "find_hashes_by_needles st needles =
     (let needles2 = non_blank needles
      in if needles2 = [] then Inl (ValueError ''No needles'')
         else case ws_entries st of
                None \<Rightarrow> Inl OSError
              | Some ds \<Rightarrow>
                  (case scan_loop (ws_path st) needles2 ds of
                     Inl err \<Rightarrow> Inl err
                   | Inr hits \<Rightarrow> Inr (sort_reverse mtime_key hits)))"

section \<open>Needle builder\<close>

text \<open>The \<^verbatim>\<open># Unique\<close> loop: keeps the first occurrence of every non-empty string.\<close>

fun unique_loop :: "string set \<Rightarrow> string list \<Rightarrow> string list \<Rightarrow> string list" where
  "unique_loop seen out [] = out"
| "unique_loop seen out (v # vs) =
     (if v \<noteq> [] \<and> v \<notin> seen then unique_loop (insert v seen) (out @ [v]) vs
      else unique_loop seen out vs)"

text \<open>\<^verbatim>\<open>str(p)\<close> of a path never raises, so the first \<^verbatim>\<open>except\<close> of the source has no
  branch here; \<^verbatim>\<open>as_uri\<close> raising leaves the standard form out.\<close>

definition win_uri_variants :: "path \<Rightarrow> string list" where
  "win_uri_variants p =
     (let s = path_str p;
          standard = (case as_uri p of Inr u \<Rightarrow> [u] | Inl err \<Rightarrow> []);
          has_drive = (2 \<le> length s \<and> s ! 1 = CHR '':'');
          drive = (if has_drive then [s ! 0] else []);
          rest = (if has_drive then drop 2 s else s);
          rest_slash = replace_char (CHR 0x5C) (CHR ''/'') rest;
          manual =
            (if drive \<noteq> [] then
               [''file:///'' @ drive @ '':'' @ rest_slash,
                ''file:///'' @ lower drive @ '':'' @ rest_slash,
                ''file:///'' @ lower drive @ ''%3A'' @ rest_slash,
                ''file:///'' @ lower drive @ ''%3a'' @ rest_slash]
             else [])
      in unique_loop {} [] (standard @ manual))"

text \<open>A \<^verbatim>\<open>.code-workspace\<close> file as the program reads it: what
  \<^verbatim>\<open>json.loads(read_text(encoding="utf-8"))\<close> gives and what
  \<^verbatim>\<open>json.loads(read_text(errors="ignore"))\<close> gives, \<open>None\<close> when the attempt raises.\<close>

record descriptor_file =
  strict_json :: "json option"
  lossy_json :: "json option"

text \<open>The needles one entry of \<^verbatim>\<open>folders\<close> appends.\<close>

definition folder_needles :: "path \<Rightarrow> path \<Rightarrow> json \<Rightarrow> error + string list" where
  "folder_needles cwd workspace_file f =
     (case f of
        JObj d \<Rightarrow>
          (case (case dict_get d ''uri'' of
                   Some (JStr u) \<Rightarrow> if strip u \<noteq> [] then Some (strip u) else None
                 | _ \<Rightarrow> None) of
             Some u \<Rightarrow> Inr [u]
           | None \<Rightarrow>
               (case dict_get d ''path'' of
                  Some (JStr pth) \<Rightarrow>
                    if strip pth \<noteq> [] then
                      (case (if is_absolute (parse_path pth) then Inr (parse_path pth)
                             else resolve cwd (joinpath (parent workspace_file) (parse_path pth))) of
                         Inl err \<Rightarrow> Inl err
                       | Inr p \<Rightarrow>
                           Inr ([path_str p, replace_char (CHR 0x5C) (CHR ''/'') (path_str p)]
                                @ win_uri_variants p))
                    else Inr []
                | _ \<Rightarrow> Inr []))
      | _ \<Rightarrow> Inr [])"

fun folders_loop :: "path \<Rightarrow> path \<Rightarrow> json list \<Rightarrow> error + string list" where
  "folders_loop cwd workspace_file [] = Inr []"
| "folders_loop cwd workspace_file (f # fs) =
     (case folder_needles cwd workspace_file f of
        Inl err \<Rightarrow> Inl err
      | Inr ns \<Rightarrow>
          (case folders_loop cwd workspace_file fs of
             Inl err \<Rightarrow> Inl err
           | Inr ms \<Rightarrow> Inr (ns @ ms)))"

definition load_code_workspace_folders ::
    "path \<Rightarrow> path \<Rightarrow> descriptor_file \<Rightarrow> error + string list" where
  "load_code_workspace_folders cwd workspace_file file =
     (case (case strict_json file of Some obj \<Rightarrow> Some obj | None \<Rightarrow> lossy_json file) of
        None \<Rightarrow> Inr []
      | Some (JObj obj) \<Rightarrow>
          (case dict_get obj ''folders'' of
             Some (JArr folders) \<Rightarrow>
               (case folders_loop cwd workspace_file folders of
                  Inl err \<Rightarrow> Inl err
                | Inr needles \<Rightarrow> Inr (unique_loop {} [] needles))
           | _ \<Rightarrow> Inr [])
      | Some _ \<Rightarrow> Inr [])"

text \<open>What the file system holds at the input path.\<close>

datatype fs_node = NoNode | DirNode | FileNode descriptor_file

fun is_code_workspace_file :: "path \<Rightarrow> fs_node \<Rightarrow> bool" where
  "is_code_workspace_file p (FileNode file) = (lower (suffix_of (path_name p)) = ''.code-workspace'')"
| "is_code_workspace_file p DirNode = False"
| "is_code_workspace_file p NoNode = False"

definition build_needles_for_workspace_input ::
    "path \<Rightarrow> path \<Rightarrow> fs_node \<Rightarrow> error + string \<times> string list" where
  "build_needles_for_workspace_input cwd workspace_or_folder node =
     (if is_code_workspace_file workspace_or_folder node then
        (let ws_full = path_str workspace_or_folder
         in case as_uri workspace_or_folder of
              Inl err \<Rightarrow> Inl err
            | Inr ws_uri \<Rightarrow>
                (case load_code_workspace_folders cwd workspace_or_folder
                        (case node of FileNode file \<Rightarrow> file) of
                   Inl err \<Rightarrow> Inl err
                 | Inr folders \<Rightarrow>
                     Inr (''WorkspaceFile: '' @ ws_full,
                          [ws_full, replace_char (CHR 0x5C) (CHR ''/'') ws_full,
                           ws_uri, lower ws_uri] @ folders)))
      else if node = DirNode then
        (let folder_full = path_str workspace_or_folder
         in case as_uri workspace_or_folder of
              Inl err \<Rightarrow> Inl err
            | Inr folder_uri \<Rightarrow>
                Inr (''WorkspaceFolder: '' @ folder_full,
                     [folder_full, replace_char (CHR 0x5C) (CHR ''/'') folder_full,
                      folder_uri, lower folder_uri] @ win_uri_variants workspace_or_folder))
      else
        (let raw = path_str workspace_or_folder
         in Inr (''Path: '' @ raw, [raw, replace_char (CHR 0x5C) (CHR ''/'') raw, lower raw])))"

section \<open>Predicates used in the statements\<close>

text \<open>A string is blank when it is empty or white space only.\<close>

definition blank :: "string \<Rightarrow> bool" where
  "blank s = list_all is_space s"

text \<open>Two characters are the same up to case when they are equal or one is a capital
  letter and the other its lower-case form. A needle is a case-insensitive substring of a
  text when a stretch of the text has the needle's length and is, character by character,
  the same up to case.\<close>

definition ci_char :: "char \<Rightarrow> char \<Rightarrow> bool" where
  "ci_char a b = (a = b \<or> (a, b) \<in> set case_pairs \<or> (b, a) \<in> set case_pairs)"


text \<open>\<open>l\<close> is the lower-cased form of \<open>s\<close>: the same up to case, and without capital
  letters.\<close>

definition is_upper :: "char \<Rightarrow> bool" where
  "is_upper c = (c \<in> set (map fst case_pairs))"

definition lower_cased :: "string \<Rightarrow> string \<Rightarrow> bool" where
  "lower_cased l s = (list_all2 ci_char l s \<and> \<not> list_ex is_upper l)"



text \<open>A parsed object with one field removed.\<close>

definition without_key :: "string \<Rightarrow> (string \<times> json) list \<Rightarrow> (string \<times> json) list" where
  "without_key c obj = filter (\<lambda>kv. fst kv \<noteq> c) obj"

text \<open>The storage with the modification time of every descriptor replaced.\<close>

definition touch_descriptor :: "(hash_dir \<Rightarrow> datetime) \<Rightarrow> hash_dir \<Rightarrow> hash_dir" where
  "touch_descriptor g d =
     d\<lparr>d_workspace_json := map_option (\<lambda>f. f\<lparr>mtime := g d\<rparr>) (d_workspace_json d)\<rparr>"

definition touch_descriptors :: "(hash_dir \<Rightarrow> datetime) \<Rightarrow> workspace_storage \<Rightarrow> workspace_storage" where
  "touch_descriptors g st = st\<lparr>ws_entries := map_option (map (touch_descriptor g)) (ws_entries st)\<rparr>"

section \<open>Example inputs\<close>

definition ex_zero_obj :: "(string \<times> json) list" where
  "ex_zero_obj = [(''sessionId'', JStr ''abc''), (''creationDate'', JInt 0)]"

definition ex_zero_entry :: chat_entry where
  "ex_zero_entry = \<lparr>e_name = ''s1.json'', e_is_file = True, e_ctime = 7, e_mtime = 9,
       e_json = Some (JObj ex_zero_obj)\<rparr>"

definition ex_session_storage :: workspace_storage where
  "ex_session_storage = \<lparr>ws_path = parse_path ''/r'',
      ws_entries = Some [\<lparr>d_name = ''h1'', d_is_dir = True, d_workspace_json = None,
         d_state_db = None, d_chat = ChatDir [ex_zero_entry]\<rparr>]\<rparr>"

definition ex_clock :: clock where
  "ex_clock ms = Some 5"

definition ex_zero_item :: SessionItem where
  "ex_zero_item = \<lparr>hash = ''h1'', session_id = ''abc'', title = [], created = 7, updated = 9,
      ext = ''json'', path = Path ''/'' [''r'', ''h1'', ''chatSessions'', ''s1.json'']\<rparr>"

definition ex_needles :: "string list" where
  "ex_needles = [''file:///ws/proj'', '' '']"

definition ex_descriptor_a :: text_file where
  "ex_descriptor_a = \<lparr>read_result = Inr ''folder: file:///ws/proj'', mtime = 10\<rparr>"

definition ex_descriptor_b :: text_file where
  "ex_descriptor_b = \<lparr>read_result = Inr ''folder: FILE:///WS/Proj/sub dir'', mtime = 5\<rparr>"

definition ex_descriptor_other :: text_file where
  "ex_descriptor_other = \<lparr>read_result = Inr ''folder: file:///ws/other project'', mtime = 6\<rparr>"

definition ex_dir_a :: hash_dir where
  "ex_dir_a = \<lparr>d_name = ''hash_a'', d_is_dir = True, d_workspace_json = Some ex_descriptor_a,
      d_state_db = Some (Inr 1), d_chat = NoChatDir\<rparr>"

definition ex_dir_b :: hash_dir where
  "ex_dir_b = \<lparr>d_name = ''hash_b'', d_is_dir = True, d_workspace_json = Some ex_descriptor_b,
      d_state_db = Some (Inr 2), d_chat = NoChatDir\<rparr>"

definition ex_dir_c :: hash_dir where
  "ex_dir_c = \<lparr>d_name = ''hash_c'', d_is_dir = True, d_workspace_json = Some ex_descriptor_a,
      d_state_db = None, d_chat = ChatDirError\<rparr>"

definition ex_dir_d :: hash_dir where
  "ex_dir_d = \<lparr>d_name = ''hash_d'', d_is_dir = True, d_workspace_json = None,
      d_state_db = Some (Inr 7), d_chat = NoChatDir\<rparr>"

definition ex_dir_e :: hash_dir where
  "ex_dir_e = \<lparr>d_name = ''hash_e'', d_is_dir = True, d_workspace_json = Some ex_descriptor_a,
      d_state_db = Some (Inr 2), d_chat = ChatDir [ex_zero_entry]\<rparr>"

definition ex_dir_f :: hash_dir where
  "ex_dir_f = \<lparr>d_name = ''hash_f'', d_is_dir = True, d_workspace_json = Some ex_descriptor_other,
      d_state_db = Some (Inr 9), d_chat = NoChatDir\<rparr>"

definition ex_dirs :: "hash_dir list" where
  "ex_dirs = [ex_dir_a, ex_dir_b, ex_dir_c, ex_dir_d, ex_dir_e, ex_dir_f]"

definition ex_root :: path where
  "ex_root = parse_path ''/r''"

definition ex_scan_storage :: workspace_storage where
  "ex_scan_storage = \<lparr>ws_path = ex_root, ws_entries = Some ex_dirs\<rparr>"

definition ex_hits :: "HashInfo list" where
  "ex_hits = [hash_info ex_root ex_dir_b, hash_info ex_root ex_dir_e,
              hash_info ex_root ex_dir_a, hash_info ex_root ex_dir_c]"


definition ex_cwd :: path where
  "ex_cwd = parse_path ''/home/u''"

definition ex_workspace_file :: path where
  "ex_workspace_file = parse_path ''/ws/proj.code-workspace''"

definition ex_folders_app :: json where
  "ex_folders_app = JObj [(''folders'', JArr [JObj [(''path'', JStr ''app'')]])]"

definition ex_descriptor_app :: descriptor_file where
  "ex_descriptor_app = \<lparr>strict_json = Some ex_folders_app, lossy_json = None\<rparr>"

definition ex_descriptor_nul :: descriptor_file where
  "ex_descriptor_nul =
     \<lparr>strict_json = Some (JObj [(''folders'',
          JArr [JObj [(''path'', JStr [CHR ''a'', CHR 0x00, CHR ''b''])]])]),
      lossy_json = None\<rparr>"









definition ex_missing_path :: path where
  "ex_missing_path = parse_path (''/Nope/'' @ [CHR 0xC9])"

section \<open>Auxiliary facts\<close>

subsection \<open>Sorting in reverse\<close>

lemma sort_reverse_descending: "sorted_wrt (\<lambda>a b. f b \<le> f a) (sort_reverse f xs)"
proof -
  have "sorted (map f (sort_key f (rev xs)))" by simp
  then have "sorted_wrt (\<lambda>a b. f a \<le> f b) (sort_key f (rev xs))"
    by (simp add: sorted_wrt_map)
  then show ?thesis
    by (simp add: sort_reverse_def sorted_wrt_rev)
qed

lemma sort_reverse_stable:
  "filter (\<lambda>y. f y = k) (sort_reverse f xs) = filter (\<lambda>y. f y = k) xs"
proof -
  have "filter (\<lambda>y. f y = k) (sort_reverse f xs)
          = rev (filter (\<lambda>y. f y = k) (sort_key f (rev xs)))"
    by (simp add: sort_reverse_def rev_filter)
  also have "\<dots> = rev (filter (\<lambda>y. f y = k) (rev xs))"
    by (simp only: sort_key_stable)
  also have "\<dots> = filter (\<lambda>y. f y = k) xs"
    by (simp add: rev_filter)
  finally show ?thesis .
qed


lemma descending_index:
  fixes f :: "'a \<Rightarrow> 'k::linorder"
  assumes "sorted_wrt (\<lambda>a b. f b \<le> f a) xs" and "i < length xs" and "j < length xs"
    and "f (xs ! j) < f (xs ! i)"
  shows "i < j"
proof (rule ccontr)
  assume "\<not> i < j"
  then consider "i = j" | "j < i" by linarith
  then show False
  proof cases
    case 1
    with assms(4) show False by simp
  next
    case 2
    with assms(1,2) have "f (xs ! i) \<le> f (xs ! j)"
      by (simp add: sorted_wrt_iff_nth_less)
    with assms(4) show False by simp
  qed
qed

lemma set_sort_reverse: "set (sort_reverse f xs) = set xs"
  by (simp add: sort_reverse_def)

subsection \<open>Letters and their lower-case forms\<close>

lemma case_fst_distinct: "distinct (map fst case_pairs)"
  by code_simp

lemma case_snd_distinct: "distinct (map snd case_pairs)"
  by code_simp

lemma case_disjoint: "list_all (\<lambda>c. c \<notin> set (map fst case_pairs)) (map snd case_pairs)"
  by code_simp

lemma map_of_case_pairs: "map_of case_pairs a = Some l \<longleftrightarrow> (a, l) \<in> set case_pairs"
  by (simp add: case_fst_distinct)

lemma map_of_case_pairs_None: "map_of case_pairs a = None \<longleftrightarrow> \<not> is_upper a"
  by (simp add: map_of_eq_None_iff is_upper_def)

lemma lower_form_not_upper: "(a, l) \<in> set case_pairs \<Longrightarrow> \<not> is_upper l"
proof -
  assume "(a, l) \<in> set case_pairs"
  then have "l \<in> set (map snd case_pairs)" by force
  with case_disjoint show ?thesis by (auto simp: list_all_iff is_upper_def)
qed

lemma upper_of_pair: "(a, l) \<in> set case_pairs \<Longrightarrow> is_upper a"
  by (force simp: is_upper_def)

lemma case_pairs_inj: "(a, l) \<in> set case_pairs \<Longrightarrow> (b, l) \<in> set case_pairs \<Longrightarrow> a = b"
proof -
  assume a: "(a, l) \<in> set case_pairs" and b: "(b, l) \<in> set case_pairs"
  from case_snd_distinct have "inj_on snd (set case_pairs)" by (simp add: distinct_map)
  from inj_onD [OF this _ a b] show ?thesis by simp
qed

lemma case_pairs_fun: "(a, l) \<in> set case_pairs \<Longrightarrow> (a, l') \<in> set case_pairs \<Longrightarrow> l = l'"
proof -
  assume "(a, l) \<in> set case_pairs" and "(a, l') \<in> set case_pairs"
  then have "map_of case_pairs a = Some l" and "map_of case_pairs a = Some l'"
    by (simp_all only: map_of_case_pairs)
  then show ?thesis by simp
qed

lemma lower_char_upper: "(a, l) \<in> set case_pairs \<Longrightarrow> lower_char a = l"
  by (simp add: lower_char_def map_of_case_pairs [symmetric])

lemma lower_char_other: "\<not> is_upper a \<Longrightarrow> lower_char a = a"
  by (simp add: lower_char_def map_of_case_pairs_None [symmetric])

lemma lower_char_eq_iff: "lower_char a = lower_char b \<longleftrightarrow> ci_char a b"
proof (cases "is_upper a")
  case ua: True
  then obtain la where la: "(a, la) \<in> set case_pairs" by (auto simp: is_upper_def)
  then have lwa: "lower_char a = la" by (rule lower_char_upper)
  show ?thesis
  proof (cases "is_upper b")
    case True
    then obtain lb where lb: "(b, lb) \<in> set case_pairs" by (auto simp: is_upper_def)
    then have lwb: "lower_char b = lb" by (rule lower_char_upper)
    have "lower_char a = lower_char b \<longleftrightarrow> a = b"
    proof
      assume "lower_char a = lower_char b"
      with lwa lwb lb have "(b, la) \<in> set case_pairs" by simp
      with la show "a = b" by (rule case_pairs_inj)
    qed simp
    moreover have "(a, b) \<notin> set case_pairs" "(b, a) \<notin> set case_pairs"
      using ua True lower_form_not_upper by blast+
    ultimately show ?thesis by (simp add: ci_char_def)
  next
    case False
    then have lwb: "lower_char b = b" by (rule lower_char_other)
    have "la = b \<longleftrightarrow> (a, b) \<in> set case_pairs"
    proof
      assume "la = b"
      with la show "(a, b) \<in> set case_pairs" by simp
    next
      assume "(a, b) \<in> set case_pairs"
      with la show "la = b" by (rule case_pairs_fun)
    qed
    moreover have "a \<noteq> b" using ua False by auto
    moreover have "(b, a) \<notin> set case_pairs" using False upper_of_pair by blast
    ultimately show ?thesis unfolding ci_char_def lwa lwb by blast
  qed
next
  case na: False
  then have lwa: "lower_char a = a" by (rule lower_char_other)
  show ?thesis
  proof (cases "is_upper b")
    case True
    then obtain lb where lb: "(b, lb) \<in> set case_pairs" by (auto simp: is_upper_def)
    then have lwb: "lower_char b = lb" by (rule lower_char_upper)
    have "a = lb \<longleftrightarrow> (b, a) \<in> set case_pairs"
    proof
      assume "a = lb"
      with lb show "(b, a) \<in> set case_pairs" by simp
    next
      assume "(b, a) \<in> set case_pairs"
      from case_pairs_fun [OF this lb] show "a = lb" .
    qed
    moreover have "a \<noteq> b" using na True by auto
    moreover have "(a, b) \<notin> set case_pairs" using na upper_of_pair by blast
    ultimately show ?thesis unfolding ci_char_def lwa lwb by blast
  next
    case False
    then have lwb: "lower_char b = b" by (rule lower_char_other)
    from na False have "(a, b) \<notin> set case_pairs" "(b, a) \<notin> set case_pairs"
      using upper_of_pair by blast+
    then show ?thesis unfolding ci_char_def lwa lwb by blast
  qed
qed

lemma lower_eq_iff: "lower xs = lower ys \<longleftrightarrow> list_all2 ci_char xs ys"
proof (induction xs arbitrary: ys)
  case Nil
  then show ?case by (auto simp: lower_def)
next
  case (Cons x xs)
  then show ?case
    by (cases ys) (auto simp: lower_def lower_char_eq_iff)
qed


subsection \<open>Substrings, white space and lower-casing\<close>




lemma strip_blank: "strip s = [] \<longleftrightarrow> blank s"
proof -
  let ?r = "dropWhile is_space s"
  have "strip s = [] \<longleftrightarrow> (\<forall>x \<in> set ?r. is_space x)"
    by (simp add: strip_def dropWhile_eq_Nil_conv)
  also have "\<dots> \<longleftrightarrow> ?r = []"
  proof
    assume all: "\<forall>x \<in> set ?r. is_space x"
    show "?r = []"
    proof (rule ccontr)
      assume ne: "?r \<noteq> []"
      then have "\<not> is_space (hd ?r)" by (rule hd_dropWhile)
      moreover from ne have "hd ?r \<in> set ?r" by simp
      ultimately show False using all by blast
    qed
  next
    assume e: "?r = []"
    show "\<forall>x \<in> set ?r. is_space x" unfolding e by simp
  qed
  also have "\<dots> \<longleftrightarrow> blank s"
    by (simp add: dropWhile_eq_Nil_conv blank_def list_all_iff)
  finally show ?thesis .
qed

lemma lower_char_idem: "lower_char (lower_char c) = lower_char c"
proof (cases "is_upper c")
  case True
  then obtain l where l: "(c, l) \<in> set case_pairs" by (auto simp: is_upper_def)
  then have "lower_char c = l" by (rule lower_char_upper)
  moreover from l have "\<not> is_upper l" by (rule lower_form_not_upper)
  ultimately show ?thesis by (simp add: lower_char_other)
next
  case False
  then show ?thesis by (simp add: lower_char_other)
qed

lemma lower_char_not_upper: "\<not> is_upper (lower_char c)"
proof (cases "is_upper c")
  case True
  then obtain l where l: "(c, l) \<in> set case_pairs" by (auto simp: is_upper_def)
  then have "lower_char c = l" by (rule lower_char_upper)
  with lower_form_not_upper [OF l] show ?thesis by simp
next
  case False
  then show ?thesis by (simp add: lower_char_other)
qed

lemma lower_cased_lower: "lower_cased (lower s) s"
proof -
  have "lower (lower s) = lower s" by (simp add: lower_def lower_char_idem)
  then have "list_all2 ci_char (lower s) s" by (simp add: lower_eq_iff)
  moreover have "\<not> list_ex is_upper (lower s)"
    by (simp add: list_ex_iff lower_def lower_char_not_upper)
  ultimately show ?thesis by (simp add: lower_cased_def)
qed

lemma lower_cased_unique: "lower_cased l s \<Longrightarrow> l = lower s"
proof -
  assume "lower_cased l s"
  then have eq: "lower l = lower s" and up: "\<forall>c \<in> set l. \<not> is_upper c"
    by (simp_all add: lower_cased_def lower_eq_iff list_ex_iff)
  from up have "lower l = l"
    by (induction l) (simp_all add: lower_def lower_char_other)
  with eq show ?thesis by simp
qed

subsection \<open>The de-duplication loop\<close>

lemma unique_loop_distinct:
  "distinct out \<Longrightarrow> set out \<subseteq> seen \<Longrightarrow> distinct (unique_loop seen out vs)"
proof (induction vs arbitrary: seen out)
  case Nil
  then show ?case by simp
next
  case (Cons v vs)
  show ?case
  proof (cases "v \<noteq> [] \<and> v \<notin> seen")
    case True
    with Cons.prems have "distinct (out @ [v])" and "set (out @ [v]) \<subseteq> insert v seen"
      by auto
    from Cons.IH [OF this] True show ?thesis by simp
  next
    case False
    with Cons.IH [OF Cons.prems] show ?thesis by auto
  qed
qed

lemma win_uri_variants_distinct: "distinct (win_uri_variants p)"
  by (simp add: win_uri_variants_def Let_def unique_loop_distinct)

lemma load_code_workspace_folders_distinct:
  "load_code_workspace_folders cwd w file = Inr ns \<Longrightarrow> distinct ns"
  by (auto simp: load_code_workspace_folders_def unique_loop_distinct
      split: option.splits json.splits sum.splits)

subsection \<open>Parsed session files\<close>

lemma dict_get_remove:
  "k \<noteq> c \<Longrightarrow> dict_get (filter (\<lambda>kv. fst kv \<noteq> c) obj) k = dict_get obj k"
  by (induction obj) (auto simp: dict_get_def)

lemma dict_get_removed:
  "dict_get (filter (\<lambda>kv. fst kv \<noteq> c) obj) c = None"
  by (induction obj) (auto simp: dict_get_def)

lemma title_loop_remove:
  "c \<notin> set ks \<Longrightarrow> title_loop (filter (\<lambda>kv. fst kv \<noteq> c) obj) ks = title_loop obj ks"
  by (induction ks) (auto simp: dict_get_remove split: option.splits json.splits)

lemma parse_zero:
  assumes "dict_get obj ''creationDate'' = Some cd" and "is_number cd" and "py_int cd = Inr 0"
  shows "try_parse_session_meta_json (Some (JObj obj)) =
          (fst (try_parse_session_meta_json (Some (JObj (filter (\<lambda>kv. fst kv \<noteq> ''creationDate'') obj)))),
           fst (snd (try_parse_session_meta_json (Some (JObj (filter (\<lambda>kv. fst kv \<noteq> ''creationDate'') obj))))),
           Some 0)"
    and "snd (snd (try_parse_session_meta_json (Some (JObj (filter (\<lambda>kv. fst kv \<noteq> ''creationDate'') obj))))) = None"
  using assms
  by (simp_all add: try_parse_session_meta_json_def Let_def dict_get_remove dict_get_removed title_loop_remove
        del: title_loop.simps)

lemma inventory_hashes_contains:
  "inventory_hashes fts st hs = Inr items \<Longrightarrow> h \<in> set hs \<Longrightarrow> lookup_chat st h = ChatDir es
    \<Longrightarrow> set (List.map_filter (inventory_entry fts (chat_dir_path st h) h) es) \<subseteq> set items"
proof (induction hs arbitrary: items)
  case Nil
  then show ?case by simp
next
  case (Cons a hs)
  show ?case
  proof (cases "lookup_chat st a")
    case NoChatDir
    with Cons show ?thesis by auto
  next
    case ChatDirError
    with Cons.prems show ?thesis by simp
  next
    case (ChatDir es')
    with Cons.prems obtain rest where
      rest: "inventory_hashes fts st hs = Inr rest"
      and items: "items = List.map_filter (inventory_entry fts (chat_dir_path st a) a) es' @ rest"
      by (auto split: sum.splits)
    show ?thesis
    proof (cases "h = a")
      case True
      with ChatDir Cons.prems(3) items show ?thesis by auto
    next
      case False
      with Cons.prems(2) have "h \<in> set hs" by simp
      from Cons.IH [OF rest this Cons.prems(3)] items show ?thesis by auto
    qed
  qed
qed

lemma inventory_entry_zero:
  assumes "e_is_file e" and "entry_ext e = ''json''" and "e_json e = Some (JObj obj)"
    and "dict_get obj ''creationDate'' = Some cd" and "is_number cd" and "py_int cd = Inr 0"
  shows "\<exists>it. inventory_entry fts dir h e = Some it \<and> created it = e_ctime e
     \<and> inventory_entry fts dir h (e\<lparr>e_json := Some (JObj (without_key ''creationDate'' obj))\<rparr>) = Some it"
proof -
  let ?obj' = "filter (\<lambda>kv. fst kv \<noteq> ''creationDate'') obj"
  from parse_zero [OF assms(4-6)]
  have p: "try_parse_session_meta_json (Some (JObj obj)) =
          (fst (try_parse_session_meta_json (Some (JObj ?obj'))),
           fst (snd (try_parse_session_meta_json (Some (JObj ?obj')))), Some 0)"
    and q: "snd (snd (try_parse_session_meta_json (Some (JObj ?obj')))) = None"
    by simp_all
  show ?thesis
    using assms(1-3) q
    by (simp add: inventory_entry_def Let_def entry_ext_def without_key_def p
          cong: option.case_cong)
qed

subsection \<open>The scan\<close>

lemma non_blank_set: "set (non_blank needles) = {n \<in> set needles. \<not> blank n}"
proof -
  have "n \<noteq> [] \<and> strip n \<noteq> [] \<longleftrightarrow> \<not> blank n" for n
    by (cases n) (simp_all add: strip_blank blank_def)
  then show ?thesis by (auto simp: non_blank_def)
qed

lemma non_blank_empty: "non_blank needles = [] \<longleftrightarrow> \<not> list_ex (\<lambda>n. \<not> blank n) needles"
proof -
  have "non_blank needles = [] \<longleftrightarrow> set (non_blank needles) = {}" by simp
  then show ?thesis by (auto simp: non_blank_set list_ex_iff)
qed






lemma scan_loop_hits: "scan_loop r ns ds = Inr hits \<Longrightarrow> hits = scan_hits r ns ds"
proof (induction ds arbitrary: hits)
  case Nil
  then show ?case by (simp add: scan_hits_def List.map_filter_simps)
next
  case (Cons d ds)
  from Cons.prems obtain found rest where d: "scan_dir r ns d = Inr found"
    and rest: "scan_loop r ns ds = Inr rest"
    and hits: "hits = (case found of None \<Rightarrow> [] | Some h \<Rightarrow> [h]) @ rest"
    by (auto split: sum.splits)
  from Cons.IH [OF rest] have "rest = scan_hits r ns ds" .
  with d hits show ?case
    by (cases found) (simp_all add: scan_hits_def List.map_filter_simps)
qed

lemma find_hashes_Inr:
  "find_hashes_by_needles st needles = Inr hits \<longleftrightarrow>
     (list_ex (\<lambda>n. \<not> blank n) needles \<and>
      (\<exists>ds raw. ws_entries st = Some ds
         \<and> scan_loop (ws_path st) (non_blank needles) ds = Inr raw
         \<and> hits = sort_reverse mtime_key raw))"
  by (auto simp: find_hashes_by_needles_def Let_def non_blank_empty split: option.splits sum.splits)

lemma find_hashes_sorted_scan:
  "find_hashes_by_needles st needles = Inr hits \<Longrightarrow> ws_entries st = Some ds \<Longrightarrow>
     hits = sort_reverse mtime_key (scan_hits (ws_path st) (non_blank needles) ds)"
  by (auto simp: find_hashes_Inr dest: scan_loop_hits)


lemma hash_info_touch: "hash_info r (touch_descriptor g d) = hash_info r d"
  by (simp add: hash_info_def touch_descriptor_def db_mtime_def Let_def)

lemma scan_dir_touch: "scan_dir r ns (touch_descriptor g d) = scan_dir r ns d"
proof -
  have "d_is_dir (touch_descriptor g d) = d_is_dir d"
    and "d_state_db (touch_descriptor g d) = d_state_db d"
    and "d_workspace_json (touch_descriptor g d)
           = map_option (\<lambda>f. f\<lparr>mtime := g d\<rparr>) (d_workspace_json d)"
    by (simp_all add: touch_descriptor_def)
  then show ?thesis
    unfolding scan_dir_def hash_info_touch
    by (cases "d_workspace_json d") (simp_all cong: sum.case_cong if_cong)
qed

lemma scan_loop_touch: "scan_loop r ns (map (touch_descriptor g) ds) = scan_loop r ns ds"
  by (induction ds) (simp_all add: scan_dir_touch cong: sum.case_cong)

lemma find_hashes_touch:
  "find_hashes_by_needles (touch_descriptors g st) needles = find_hashes_by_needles st needles"
  by (cases "ws_entries st")
     (simp_all add: find_hashes_by_needles_def touch_descriptors_def Let_def scan_loop_touch)

subsection \<open>The descriptor of the scenario\<close>

lemma ws_parent: "parent (parse_path ''/ws/proj.code-workspace'') = Path ''/'' [''ws'']"
  by code_simp

lemma app_rel: "parse_path ''app'' = Path [] [''app'']"
  by code_simp

lemma ws_app_variants: "win_uri_variants (Path ''/'' [''ws'', ''app'']) = [''file:///ws/app'']"
  by code_simp

lemma ws_app_str: "path_str (Path ''/'' [''ws'', ''app'']) = ''/ws/app''"
  by code_simp

lemma ws_app_slashes: "replace_char (CHR 0x5C) (CHR ''/'') ''/ws/app'' = ''/ws/app''"
  by code_simp

lemma ws_app_unique:
  "unique_loop {} [] [''/ws/app'', ''/ws/app'', ''file:///ws/app'']
     = [''/ws/app'', ''file:///ws/app'']"
  by code_simp

subsection \<open>Where the needle builder degrades and where it raises\<close>

lemma load_code_workspace_folders_unparsed:
  "strict_json file = None \<Longrightarrow> lossy_json file = None
     \<Longrightarrow> load_code_workspace_folders cwd w file = Inr []"
  by (simp add: load_code_workspace_folders_def)

lemma folder_needles_error:
  "folder_needles cwd w f = Inl err \<Longrightarrow> err = ValueError ''embedded null byte''"
  by (auto simp: folder_needles_def resolve_def Let_def
      split: json.splits option.splits if_splits sum.splits)

lemma folders_loop_error:
  "folders_loop cwd w fs = Inl err \<Longrightarrow> err = ValueError ''embedded null byte''"
  by (induction fs) (auto split: sum.splits dest: folder_needles_error)

lemma load_code_workspace_folders_error:
  "load_code_workspace_folders cwd w file = Inl err \<Longrightarrow> err = ValueError ''embedded null byte''"
  by (auto simp: load_code_workspace_folders_def
      split: json.splits option.splits sum.splits dest: folders_loop_error)

section \<open>Classification of a source session\<close>

text \<open>
  C1. For every source item and every destination map, \<open>status_for\<close> returns exactly one
  of the three decisions: MissingInTarget exactly when the identifier is absent from the
  map, NewerInSource exactly when it is present and the item's updated time is strictly
  greater than the mapped time, AlreadyInTarget exactly when it is present and the
  item's updated time is not greater.
\<close>

theorem status_for_classification:
  "(status_for item target_map = ''MissingInTarget'')
     = (target_map (session_id item) = None)
   \<and> (status_for item target_map = ''NewerInSource'')
     = (\<exists>t. target_map (session_id item) = Some t \<and> t < updated item)
   \<and> (status_for item target_map = ''AlreadyInTarget'')
     = (\<exists>t. target_map (session_id item) = Some t \<and> \<not> t < updated item)
   \<and> (status_for item target_map = ''MissingInTarget''
      \<or> status_for item target_map = ''NewerInSource''
      \<or> status_for item target_map = ''AlreadyInTarget'')
   \<and> ''MissingInTarget'' \<noteq> ''NewerInSource''
   \<and> ''MissingInTarget'' \<noteq> ''AlreadyInTarget''
   \<and> ''NewerInSource'' \<noteq> ''AlreadyInTarget''"
  by (cases "target_map (session_id item)") (simp_all add: status_for_def)

section \<open>Ranking of the matched hash directories\<close>

text \<open>
  C2. The list \<open>find_hashes_by_needles\<close> returns is the scan's list of hits, stable-sorted
  by the modification time of \<^verbatim>\<open>state.vscdb\<close> in descending order. A directory without
  the database file has the key \<open>datetime_min\<close>, which no key is below. Hits with equal
  keys keep their scan order. A hit whose database time is later than another hit's
  database time stands before it, and a hit with a database (its time later than
  \<open>datetime_min\<close>, as every time \<^verbatim>\<open>dt_from_ts\<close> returns) stands before every hit
  without one.
\<close>

theorem hash_ranker_order:
  assumes "find_hashes_by_needles st needles = Inr hits" and "ws_entries st = Some ds"
  shows "sorted_wrt (\<lambda>a b. mtime_key b \<le> mtime_key a) hits
     \<and> (\<forall>k. filter (\<lambda>h. mtime_key h = k) hits
            = filter (\<lambda>h. mtime_key h = k) (scan_hits (ws_path st) (non_blank needles) ds))
     \<and> (\<forall>i j t1 t2. i < length hits \<and> j < length hits
            \<and> state_db_mtime (hits ! i) = Some t1 \<and> state_db_mtime (hits ! j) = Some t2
            \<and> t2 < t1 \<longrightarrow> i < j)
     \<and> (\<forall>i j t. i < length hits \<and> j < length hits
            \<and> state_db_mtime (hits ! i) = Some t \<and> datetime_min < t
            \<and> state_db_mtime (hits ! j) = None \<longrightarrow> i < j)
     \<and> (\<forall>h. state_db_mtime h = None \<longrightarrow> mtime_key h = datetime_min)
     \<and> (\<forall>h. datetime_min \<le> mtime_key h)"
proof -
  from assms have hits: "hits = sort_reverse mtime_key (scan_hits (ws_path st) (non_blank needles) ds)"
    by (rule find_hashes_sorted_scan)
  have sorted: "sorted_wrt (\<lambda>a b. mtime_key b \<le> mtime_key a) hits"
    unfolding hits by (rule sort_reverse_descending)
  have stable: "filter (\<lambda>h. mtime_key h = k) hits
      = filter (\<lambda>h. mtime_key h = k) (scan_hits (ws_path st) (non_blank needles) ds)" for k
    unfolding hits by (rule sort_reverse_stable)
  have newer: "i < j" if "i < length hits" "j < length hits"
      "state_db_mtime (hits ! i) = Some t1" "state_db_mtime (hits ! j) = Some t2" "t2 < t1"
    for i j t1 t2
  proof -
    from that have "mtime_key (hits ! j) < mtime_key (hits ! i)" by (simp add: mtime_key_def)
    from descending_index [OF sorted that(1,2) this] show ?thesis .
  qed
  have missing: "i < j" if "i < length hits" "j < length hits"
      "state_db_mtime (hits ! i) = Some t" "datetime_min < t" "state_db_mtime (hits ! j) = None"
    for i j t
  proof -
    from that have "mtime_key (hits ! j) < mtime_key (hits ! i)" by (simp add: mtime_key_def)
    from descending_index [OF sorted that(1,2) this] show ?thesis .
  qed
  have least: "datetime_min \<le> mtime_key h" for h
    by (simp add: datetime_min_def)
  have nokey: "state_db_mtime h = None \<longrightarrow> mtime_key h = datetime_min" for h
    by (simp add: mtime_key_def)
  from sorted stable newer missing least nokey show ?thesis by blast
qed

theorem hash_ranker_order_witness:
  "find_hashes_by_needles ex_scan_storage ex_needles = Inr ex_hits
   \<and> ws_entries ex_scan_storage = Some ex_dirs
   \<and> state_db_mtime (ex_hits ! 0) = Some 2 \<and> state_db_mtime (ex_hits ! 2) = Some 1
   \<and> state_db_mtime (ex_hits ! 3) = None \<and> (1::nat) < 2 \<and> datetime_min < 1
   \<and> sorted_wrt (\<lambda>a b. mtime_key b \<le> mtime_key a) ex_hits
   \<and> filter (\<lambda>h. mtime_key h = 2) ex_hits
       = filter (\<lambda>h. mtime_key h = 2) (scan_hits (ws_path ex_scan_storage) (non_blank ex_needles) ex_dirs)
   \<and> (0::nat) < 2 \<and> (2::nat) < 3"
proof -
  have found: "find_hashes_by_needles ex_scan_storage ex_needles = Inr ex_hits"
    by code_simp
  have entries: "ws_entries ex_scan_storage = Some ex_dirs"
    by (simp add: ex_scan_storage_def)
  have m0: "state_db_mtime (ex_hits ! 0) = Some 2" by code_simp
  have m2: "state_db_mtime (ex_hits ! 2) = Some 1" by code_simp
  have m3: "state_db_mtime (ex_hits ! 3) = None" by code_simp
  have dm: "datetime_min < 1" by (simp add: datetime_min_def)
  have len: "length ex_hits = 4" by (simp add: ex_hits_def)
  note order = hash_ranker_order [OF found entries]
  from order have sorted: "sorted_wrt (\<lambda>a b. mtime_key b \<le> mtime_key a) ex_hits" by blast
  from order have stable: "filter (\<lambda>h. mtime_key h = 2) ex_hits
       = filter (\<lambda>h. mtime_key h = 2) (scan_hits (ws_path ex_scan_storage) (non_blank ex_needles) ex_dirs)"
    by blast
  from order m0 m2 len have "(0::nat) < 2" by simp
  moreover from order m2 m3 dm len have "(2::nat) < 3" by simp
  ultimately show ?thesis using found entries m0 m2 m3 dm sorted stable by simp
qed

section \<open>What the scan returns\<close>




section \<open>The ranking does not read the descriptor\<close>

text \<open>
  C4 as stated orders the hits by the modification time of \<^verbatim>\<open>workspace.json\<close>. In the
  example the descriptor of \<open>hash_a\<close> is newer than the descriptor of \<open>hash_b\<close>, and
  \<open>hash_b\<close> comes first.
\<close>

theorem descriptor_recency_counterexample:
  "find_hashes_by_needles ex_scan_storage ex_needles = Inr ex_hits
   \<and> ex_hits ! 0 = hash_info ex_root ex_dir_b \<and> ex_hits ! 2 = hash_info ex_root ex_dir_a
   \<and> d_workspace_json ex_dir_a = Some ex_descriptor_a
   \<and> d_workspace_json ex_dir_b = Some ex_descriptor_b
   \<and> mtime ex_descriptor_b < mtime ex_descriptor_a"
proof -
  have "find_hashes_by_needles ex_scan_storage ex_needles = Inr ex_hits" by code_simp
  moreover have "ex_hits ! 0 = hash_info ex_root ex_dir_b" "ex_hits ! 2 = hash_info ex_root ex_dir_a"
    by (simp_all add: ex_hits_def)
  moreover have "d_workspace_json ex_dir_a = Some ex_descriptor_a"
    "d_workspace_json ex_dir_b = Some ex_descriptor_b"
    by (simp_all add: ex_dir_a_def ex_dir_b_def)
  moreover have "mtime ex_descriptor_b < mtime ex_descriptor_a"
    by (simp add: ex_descriptor_a_def ex_descriptor_b_def)
  ultimately show ?thesis by blast
qed

text \<open>
  C4, as the code has it. The hits are ordered by the modification time of
  \<^verbatim>\<open>state.vscdb\<close>, most recent first: of two hits that both have a database, the one
  whose database was modified later stands before the other. The modification time of
  the descriptor is not consulted: replacing it in every directory leaves the result
  unchanged.
\<close>

theorem ranker_orders_by_database_mtime:
  assumes "find_hashes_by_needles st needles = Inr hits"
    and "i < length hits" and "j < length hits"
    and "state_db_mtime (hits ! i) = Some t1" and "state_db_mtime (hits ! j) = Some t2"
    and "t2 < t1"
  shows "i < j \<and> find_hashes_by_needles (touch_descriptors g st) needles = Inr hits"
proof -
  from assms(1) have sorted: "sorted_wrt (\<lambda>a b. mtime_key b \<le> mtime_key a) hits"
    by (auto simp: find_hashes_Inr sort_reverse_descending)
  from assms(4-6) have "mtime_key (hits ! j) < mtime_key (hits ! i)"
    by (simp add: mtime_key_def)
  from descending_index [OF sorted assms(2,3) this] assms(1) show ?thesis
    by (simp add: find_hashes_touch)
qed

theorem ranker_orders_by_database_mtime_witness:
  "find_hashes_by_needles ex_scan_storage ex_needles = Inr ex_hits
   \<and> (0::nat) < length ex_hits \<and> (2::nat) < length ex_hits
   \<and> state_db_mtime (ex_hits ! 0) = Some 2 \<and> state_db_mtime (ex_hits ! 2) = Some 1
   \<and> (1::nat) < 2
   \<and> (0::nat) < 2
   \<and> find_hashes_by_needles (touch_descriptors (\<lambda>d. 0) ex_scan_storage) ex_needles = Inr ex_hits"
proof -
  have found: "find_hashes_by_needles ex_scan_storage ex_needles = Inr ex_hits" by code_simp
  have l0: "(0::nat) < length ex_hits" and l2: "(2::nat) < length ex_hits"
    by (simp_all add: ex_hits_def)
  have m0: "state_db_mtime (ex_hits ! 0) = Some 2" by code_simp
  have m2: "state_db_mtime (ex_hits ! 2) = Some 1" by code_simp
  have lt: "(1::nat) < 2" by simp
  from ranker_orders_by_database_mtime [OF found l0 l2 m0 m2 lt, of "\<lambda>d. 0"]
  have "(0::nat) < 2
     \<and> find_hashes_by_needles (touch_descriptors (\<lambda>d. 0) ex_scan_storage) ex_needles = Inr ex_hits" .
  with found l0 l2 m0 m2 show ?thesis by simp
qed

section \<open>Folders of a workspace file\<close>

text \<open>
  C5 as stated expects the needle \<^verbatim>\<open>/ws/proj/app\<close>. The descriptor
  \<^verbatim>\<open>/ws/proj.code-workspace\<close> lies in the directory \<^verbatim>\<open>/ws\<close>, so the relative folder
  \<^verbatim>\<open>app\<close> resolves to \<^verbatim>\<open>/ws/app\<close>.
\<close>

theorem proj_app_counterexample:
  "load_code_workspace_folders ex_cwd ex_workspace_file ex_descriptor_app
     = Inr [''/ws/app'', ''file:///ws/app'']
   \<and> ''/ws/proj/app'' \<notin> set [''/ws/app'', ''file:///ws/app'']"
  by code_simp

text \<open>
  C5, as the code has it. For the descriptor \<^verbatim>\<open>/ws/proj.code-workspace\<close> with the
  folders \<^verbatim>\<open>[{"path": "app"}]\<close>, \<open>load_code_workspace_folders\<close> resolves the relative
  path against the descriptor's own directory \<^verbatim>\<open>/ws\<close> and returns the absolute path
  \<^verbatim>\<open>/ws/app\<close> (its separator-normalized form is the same string and is kept once) and
  the URI \<^verbatim>\<open>file:///ws/app\<close>, whatever the working directory and the lossy decoding
  are.
\<close>

theorem relative_folder_resolves_against_descriptor_directory:
  "load_code_workspace_folders cwd (parse_path ''/ws/proj.code-workspace'')
       \<lparr>strict_json = Some (JObj [(''folders'', JArr [JObj [(''path'', JStr ''app'')]])]),
        lossy_json = fallback\<rparr>
     = Inr [''/ws/app'', ''file:///ws/app'']"
proof -
  have res: "resolve cwd (joinpath (Path ''/'' [''ws'']) (Path [] [''app''])) = Inr (Path ''/'' [''ws'', ''app''])"
    by (simp add: resolve_def joinpath_def is_absolute_def)
  have strip: "strip ''app'' \<noteq> []" by code_simp
  have fn: "folder_needles cwd (parse_path ''/ws/proj.code-workspace'') (JObj [(''path'', JStr ''app'')])
      = Inr [''/ws/app'', ''/ws/app'', ''file:///ws/app'']"
    using strip
    by (simp add: folder_needles_def dict_get_def ws_parent app_rel res is_absolute_def
          ws_app_variants ws_app_str ws_app_slashes)
  show ?thesis
    by (simp add: load_code_workspace_folders_def dict_get_def fn ws_app_unique
          del: unique_loop.simps)
qed

section \<open>The creation date of a session file\<close>

text \<open>
  C6. When the field \<^verbatim>\<open>creationDate\<close> is numeric with the integer value \<open>cdi\<close>,
  \<open>try_parse_session_meta_json\<close> returns \<open>cdi * 1000\<close> when \<open>cdi\<close> is below
  \<open>10000000000\<close> and \<open>cdi\<close> itself otherwise: 1700000000 becomes 1700000000000, and
  1700000000000 stays.
\<close>

theorem creation_date_scaling:
  assumes "dict_get obj ''creationDate'' = Some cd" and "is_number cd" and "py_int cd = Inr cdi"
  shows "snd (snd (try_parse_session_meta_json (Some (JObj obj))))
           = Some (if cdi < 10000000000 then cdi * 1000 else cdi)"
  using assms by (simp add: try_parse_session_meta_json_def Let_def)

theorem creation_date_scaling_witness:
  "snd (snd (try_parse_session_meta_json
         (Some (JObj [(''sessionId'', JStr ''abc''), (''creationDate'', JInt 1700000000)]))))
     = Some 1700000000000
   \<and> snd (snd (try_parse_session_meta_json
         (Some (JObj [(''creationDate'', JInt 1700000000000)]))))
     = Some 1700000000000"
  using creation_date_scaling [of "[(''sessionId'', JStr ''abc''), (''creationDate'', JInt 1700000000)]"
          "JInt 1700000000" 1700000000]
        creation_date_scaling [of "[(''creationDate'', JInt 1700000000000)]"
          "JInt 1700000000000" 1700000000000]
  by (simp add: dict_get_def)

section \<open>Duplicates in the needle list\<close>

text \<open>
  C7 as stated: the needle list has no duplicates. For the directory \<^verbatim>\<open>/ws/proj\<close> the
  list repeats the path (its separator-normalized form is the same string) and repeats
  the URI, which \<open>win_uri_variants\<close> returns again.
\<close>

theorem directory_needles_counterexample:
  "build_needles_for_workspace_input ex_cwd (parse_path ''/ws/proj'') DirNode
     = Inr (''WorkspaceFolder: /ws/proj'',
            [''/ws/proj'', ''/ws/proj'', ''file:///ws/proj'', ''file:///ws/proj'',
             ''file:///ws/proj''])
   \<and> \<not> distinct [''/ws/proj'', ''/ws/proj'', ''file:///ws/proj'', ''file:///ws/proj'',
             ''file:///ws/proj'']"
  by code_simp

text \<open>
  C7, as the code has it. For a workspace file and for a directory the needle list is
  the four path and URI forms of the input (the path, its separator-normalized form, the
  URI, the lower-cased form of the URI) followed by a list without duplicates: the folder
  needles of \<open>load_code_workspace_folders\<close> for a workspace file, the URI variants for a
  directory. For a path that is neither it is the raw string, its separator-normalized
  form and its lower-cased form. The list as a whole is not de-duplicated.
\<close>

theorem needles_after_the_four_forms_distinct:
  assumes "build_needles_for_workspace_input cwd p node = Inr (label, needles)"
  shows "distinct (drop 4 needles)
     \<and> (node = DirNode \<longrightarrow> drop 4 needles = win_uri_variants p)
     \<and> (is_code_workspace_file p node \<longrightarrow>
          (\<exists>desc. node = FileNode desc
             \<and> load_code_workspace_folders cwd p desc = Inr (drop 4 needles)))
     \<and> (is_code_workspace_file p node \<or> node = DirNode \<longrightarrow>
          (\<exists>uri l. as_uri p = Inr uri \<and> lower_cased l uri
             \<and> take 4 needles
                 = [path_str p, replace_char (CHR 0x5C) (CHR ''/'') (path_str p), uri, l]))
     \<and> (\<not> is_code_workspace_file p node \<and> node \<noteq> DirNode \<longrightarrow>
          (\<exists>l. lower_cased l (path_str p)
             \<and> needles = [path_str p, replace_char (CHR 0x5C) (CHR ''/'') (path_str p), l]))"
proof (cases "is_code_workspace_file p node")
  case True
  then obtain desc where node: "node = FileNode desc" by (cases node) auto
  with True assms obtain folders uri where
    "load_code_workspace_folders cwd p desc = Inr folders" "drop 4 needles = folders"
    "as_uri p = Inr uri"
    "take 4 needles
       = [path_str p, replace_char (CHR 0x5C) (CHR ''/'') (path_str p), uri, lower uri]"
    by (auto simp: build_needles_for_workspace_input_def Let_def split: sum.splits)
  with node True lower_cased_lower [of uri] show ?thesis
    by (auto dest: load_code_workspace_folders_distinct)
next
  case False
  show ?thesis
  proof (cases "node = DirNode")
    case True
    with False assms obtain uri where "drop 4 needles = win_uri_variants p"
      "as_uri p = Inr uri"
      "take 4 needles
         = [path_str p, replace_char (CHR 0x5C) (CHR ''/'') (path_str p), uri, lower uri]"
      by (auto simp: build_needles_for_workspace_input_def Let_def split: sum.splits)
    with False True lower_cased_lower [of uri] show ?thesis
      by (auto simp: win_uri_variants_distinct)
  next
    case nd: False
    with False assms
    have "needles = [path_str p, replace_char (CHR 0x5C) (CHR ''/'') (path_str p),
                     lower (path_str p)]"
      by (auto simp: build_needles_for_workspace_input_def Let_def)
    with False nd lower_cased_lower [of "path_str p"] show ?thesis by auto
  qed
qed

theorem needles_after_the_four_forms_distinct_witness:
  "build_needles_for_workspace_input ex_cwd ex_workspace_file (FileNode ex_descriptor_app)
     = Inr (''WorkspaceFile: /ws/proj.code-workspace'',
            [''/ws/proj.code-workspace'', ''/ws/proj.code-workspace'',
             ''file:///ws/proj.code-workspace'', ''file:///ws/proj.code-workspace'',
             ''/ws/app'', ''file:///ws/app''])
   \<and> is_code_workspace_file ex_workspace_file (FileNode ex_descriptor_app)
   \<and> FileNode ex_descriptor_app \<noteq> DirNode
   \<and> distinct (drop 4 [''/ws/proj.code-workspace'', ''/ws/proj.code-workspace'',
             ''file:///ws/proj.code-workspace'', ''file:///ws/proj.code-workspace'',
             ''/ws/app'', ''file:///ws/app''])
   \<and> load_code_workspace_folders ex_cwd ex_workspace_file ex_descriptor_app
       = Inr [''/ws/app'', ''file:///ws/app'']
   \<and> as_uri ex_workspace_file = Inr ''file:///ws/proj.code-workspace''
   \<and> path_str ex_workspace_file = ''/ws/proj.code-workspace''
   \<and> lower_cased ''file:///ws/proj.code-workspace'' ''file:///ws/proj.code-workspace''
   \<and> build_needles_for_workspace_input ex_cwd ex_missing_path NoNode
     = Inr (''Path: /Nope/'' @ [CHR 0xC9],
            [''/Nope/'' @ [CHR 0xC9], ''/Nope/'' @ [CHR 0xC9], ''/nope/'' @ [CHR 0xE9]])
   \<and> \<not> is_code_workspace_file ex_missing_path NoNode
   \<and> NoNode \<noteq> DirNode
   \<and> path_str ex_missing_path = ''/Nope/'' @ [CHR 0xC9]
   \<and> lower_cased (''/nope/'' @ [CHR 0xE9]) (''/Nope/'' @ [CHR 0xC9])"
proof -
  have built: "build_needles_for_workspace_input ex_cwd ex_workspace_file (FileNode ex_descriptor_app)
     = Inr (''WorkspaceFile: /ws/proj.code-workspace'',
            [''/ws/proj.code-workspace'', ''/ws/proj.code-workspace'',
             ''file:///ws/proj.code-workspace'', ''file:///ws/proj.code-workspace'',
             ''/ws/app'', ''file:///ws/app''])"
    by code_simp
  have isws: "is_code_workspace_file ex_workspace_file (FileNode ex_descriptor_app)"
    by code_simp
  note inst = needles_after_the_four_forms_distinct [OF built]
  from inst have d: "distinct (drop 4 [''/ws/proj.code-workspace'', ''/ws/proj.code-workspace'',
             ''file:///ws/proj.code-workspace'', ''file:///ws/proj.code-workspace'',
             ''/ws/app'', ''file:///ws/app''])"
    by blast
  from inst isws have folders: "load_code_workspace_folders ex_cwd ex_workspace_file ex_descriptor_app
       = Inr [''/ws/app'', ''file:///ws/app'']"
    by simp
  from inst isws have forms: "as_uri ex_workspace_file = Inr ''file:///ws/proj.code-workspace''
      \<and> path_str ex_workspace_file = ''/ws/proj.code-workspace''
      \<and> lower_cased ''file:///ws/proj.code-workspace'' ''file:///ws/proj.code-workspace''"
    by auto
  have raw: "build_needles_for_workspace_input ex_cwd ex_missing_path NoNode
     = Inr (''Path: /Nope/'' @ [CHR 0xC9],
            [''/Nope/'' @ [CHR 0xC9], ''/Nope/'' @ [CHR 0xC9], ''/nope/'' @ [CHR 0xE9]])"
    by code_simp
  have notws: "\<not> is_code_workspace_file ex_missing_path NoNode" by simp
  from needles_after_the_four_forms_distinct [OF raw] notws
  have lowered: "path_str ex_missing_path = ''/Nope/'' @ [CHR 0xC9]
      \<and> lower_cased (''/nope/'' @ [CHR 0xE9]) (''/Nope/'' @ [CHR 0xC9])"
    by auto
  from built isws d folders forms raw notws lowered show ?thesis by simp
qed

section \<open>A folder path that makes the needle builder raise\<close>

text \<open>
  C8. A descriptor whose folder entry has the relative path \<^verbatim>\<open>"a\u0000b"\<close> parses as
  JSON; \<^verbatim>\<open>resolve\<close> is called outside every \<^verbatim>\<open>try\<close>, and its \<^verbatim>\<open>ValueError\<close> leaves
  \<open>load_code_workspace_folders\<close>.
\<close>

theorem null_byte_path_raises:
  "load_code_workspace_folders ex_cwd ex_workspace_file ex_descriptor_nul
     = Inl (ValueError ''embedded null byte'')"
  by code_simp

section \<open>An empty needle list\<close>

text \<open>
  C9. With an empty needle list \<open>find_hashes_by_needles\<close> raises
  \<^verbatim>\<open>ValueError("No needles")\<close> for every storage, also one whose root cannot be listed
  (where a scan would raise \<^verbatim>\<open>OSError\<close>): the storage is not read.
\<close>

theorem empty_needles_fail_fast:
  "find_hashes_by_needles st [] = Inl (ValueError ''No needles'')"
  by (simp add: find_hashes_by_needles_def non_blank_def)

section \<open>A creation date of zero\<close>

text \<open>
  C10. In \<open>session_inventory\<close>, a \<^verbatim>\<open>.json\<close> session file whose \<^verbatim>\<open>creationDate\<close>
  has the integer value 0 yields an item whose created time is the file system's, and
  the item is the one the same file yields with the field removed.
\<close>

theorem zero_creation_date_keeps_filesystem_time:
  assumes "session_inventory fts st hs = Inr items" and "h \<in> set hs"
    and "lookup_chat st h = ChatDir es" and "e \<in> set es"
    and "e_is_file e" and "entry_ext e = ''json''" and "e_json e = Some (JObj obj)"
    and "dict_get obj ''creationDate'' = Some cd" and "is_number cd" and "py_int cd = Inr 0"
  shows "\<exists>it. it \<in> set items
     \<and> inventory_entry fts (chat_dir_path st h) h e = Some it
     \<and> created it = e_ctime e
     \<and> inventory_entry fts (chat_dir_path st h) h
          (e\<lparr>e_json := Some (JObj (without_key ''creationDate'' obj))\<rparr>) = Some it"
proof -
  from assms(1) obtain raw where raw: "inventory_hashes fts st hs = Inr raw"
    and items: "items = sort_reverse updated raw"
    by (auto simp: session_inventory_def split: sum.splits)
  from inventory_entry_zero [OF assms(5-10)] obtain it where
    it: "inventory_entry fts (chat_dir_path st h) h e = Some it" "created it = e_ctime e"
      "inventory_entry fts (chat_dir_path st h) h
          (e\<lparr>e_json := Some (JObj (without_key ''creationDate'' obj))\<rparr>) = Some it"
    by blast
  from it(1) assms(4) have "it \<in> set (List.map_filter (inventory_entry fts (chat_dir_path st h) h) es)"
    by (force simp: List.map_filter_def)
  with inventory_hashes_contains [OF raw assms(2,3)] have "it \<in> set items"
    by (auto simp: items set_sort_reverse)
  with it show ?thesis by blast
qed

theorem zero_creation_date_keeps_filesystem_time_witness:
  "session_inventory ex_clock ex_session_storage [''h1''] = Inr [ex_zero_item]
   \<and> ''h1'' \<in> set [''h1'']
   \<and> lookup_chat ex_session_storage ''h1'' = ChatDir [ex_zero_entry]
   \<and> ex_zero_entry \<in> set [ex_zero_entry]
   \<and> e_is_file ex_zero_entry \<and> entry_ext ex_zero_entry = ''json''
   \<and> e_json ex_zero_entry = Some (JObj ex_zero_obj)
   \<and> dict_get ex_zero_obj ''creationDate'' = Some (JInt 0)
   \<and> is_number (JInt 0) \<and> py_int (JInt 0) = Inr 0
   \<and> (\<exists>it. it \<in> set [ex_zero_item]
     \<and> inventory_entry ex_clock (chat_dir_path ex_session_storage ''h1'') ''h1'' ex_zero_entry = Some it
     \<and> created it = e_ctime ex_zero_entry
     \<and> inventory_entry ex_clock (chat_dir_path ex_session_storage ''h1'') ''h1''
          (ex_zero_entry\<lparr>e_json := Some (JObj (without_key ''creationDate'' ex_zero_obj))\<rparr>) = Some it)
   \<and> created ex_zero_item = 7 \<and> e_ctime ex_zero_entry = 7 \<and> ex_clock 0 = Some 5"
proof -
  have inv: "session_inventory ex_clock ex_session_storage [''h1''] = Inr [ex_zero_item]"
    by code_simp
  have h: "''h1'' \<in> set [''h1'']" by simp
  have look: "lookup_chat ex_session_storage ''h1'' = ChatDir [ex_zero_entry]" by code_simp
  have e: "ex_zero_entry \<in> set [ex_zero_entry]" by simp
  have isfile: "e_is_file ex_zero_entry" by (simp add: ex_zero_entry_def)
  have ext: "entry_ext ex_zero_entry = ''json''" by code_simp
  have js: "e_json ex_zero_entry = Some (JObj ex_zero_obj)" by (simp add: ex_zero_entry_def)
  have cd: "dict_get ex_zero_obj ''creationDate'' = Some (JInt 0)" by code_simp
  have num: "is_number (JInt 0)" and zero: "py_int (JInt 0) = Inr 0" by simp_all
  note inst = zero_creation_date_keeps_filesystem_time [OF inv h look e isfile ext js cd num zero]
  have more: "created ex_zero_item = 7" "e_ctime ex_zero_entry = 7" "ex_clock 0 = Some 5"
    by (simp_all add: ex_zero_item_def ex_zero_entry_def ex_clock_def)
  from inst inv h look e isfile ext js cd num zero more show ?thesis by blast
qed

end
